theory Spec2Isabelle
  imports Complex_Main "HOL-Library.Sublist" "HOL-Library.Multiset" "HOL-Library.AList"
begin

section \<open>Python values\<close>

text \<open>
  Exceptions are values. Every exception of the model is an instance of Python's
  \<^verbatim>\<open>Exception\<close> class, which is what the handlers of the program
  (\<^verbatim>\<open>except Exception\<close>) catch. \<open>KeyError\<close> carries the missing key,
  \<open>AttributeError\<close> the name of the type and of the missing attribute,
  \<open>OverflowError\<close> is raised by the conversion of a too large integer to a float, and
  \<open>Error\<close> stands for any other exception, with the text that \<^verbatim>\<open>str(e)\<close> yields.
\<close>

datatype exn = KeyError string | AttributeError string string | OverflowError | Error string

fun str_exn :: "exn \<Rightarrow> string" where
  "str_exn (KeyError k) = [CHR 0x27] @ k @ [CHR 0x27]"
| "str_exn (AttributeError cls attribute) =
     [CHR 0x27] @ cls @ [CHR 0x27] @ '' object has no attribute '' @
     [CHR 0x27] @ attribute @ [CHR 0x27]"
| "str_exn OverflowError = ''int too large to convert to float''"
| "str_exn (Error m) = m"

text \<open>The outcome of a call that returns a value or raises.\<close>

datatype 'a outcome = Returns 'a | Raises exn

text \<open>
  The values a scraped field can hold: \<^verbatim>\<open>None\<close>, booleans, integers, strings, lists
  and dictionaries with string keys (kept in insertion order, as Python keeps them).
  Numbers are the integers; the functions below treat every number alike.
\<close>

datatype pyval =
    PNone
  | PBool bool
  | PInt int
  | PStr string
  | PList "pyval list"
  | PDict "(string \<times> pyval) list"

type_synonym item = "(string \<times> pyval) list"


section \<open>Run history (scraping\_manager.py)\<close>

text \<open>
  One entry of \<^verbatim>\<open>scraping_history\<close>. The value stored per category in
  \<^verbatim>\<open>results_summary\<close> is \<^verbatim>\<open>len(data)\<close> for a list and the string
  \<^verbatim>\<open>'multiple'\<close> for anything else.
\<close>

datatype summary_count = Count nat | Multiple

record history_entry =
  timestamp :: string
  results_summary :: "(string \<times> summary_count) list"
  total_items :: nat

fun summary_of :: "pyval \<Rightarrow> summary_count" where
  "summary_of (PList xs) = Count (length xs)"
| "summary_of _ = Multiple"

fun items_of :: "pyval \<Rightarrow> nat" where
  "items_of (PList xs) = length xs"
| "items_of _ = 0"

definition make_history_entry :: "string \<Rightarrow> (string \<times> pyval) list \<Rightarrow> history_entry" where
  "make_history_entry now results =
     \<lparr> timestamp = now,
       results_summary = map (\<lambda>(category, data). (category, summary_of data)) results,
       total_items = sum_list (map (\<lambda>(category, data). items_of data) results) \<rparr>"

text \<open>
  \<^verbatim>\<open>update_scraping_history\<close>: append the entry, then keep the last 100 entries when
  there are more than 100. \<open>now\<close> is the text of \<^verbatim>\<open>datetime.now().isoformat()\<close>.
\<close>

definition update_scraping_history ::
  "string \<Rightarrow> history_entry list \<Rightarrow> (string \<times> pyval) list \<Rightarrow> history_entry list" where
  "update_scraping_history now scraping_history results =
     (let appended = scraping_history @ [make_history_entry now results]
      in if length appended > 100 then drop (length appended - 100) appended else appended)"

text \<open>A sequence of runs, each appending its summary to the history.\<close>

definition update_all ::
  "(string \<times> (string \<times> pyval) list) list \<Rightarrow> history_entry list \<Rightarrow> history_entry list" where
  "update_all runs scraping_history =
     fold (\<lambda>(now, results) h. update_scraping_history now h results) runs scraping_history"

text \<open>The integer held by a summary value; the marker \<^verbatim>\<open>'multiple'\<close> holds none.\<close>

fun count_value :: "summary_count \<Rightarrow> nat" where
  "count_value (Count n) = n"
| "count_value Multiple = 0"

section \<open>Fetch client (base\_scraper.py)\<close>

text \<open>The dataclass \<^verbatim>\<open>ScrapingConfig\<close>.\<close>

record ScrapingConfig =
  max_concurrent :: int
  request_delay :: real
  timeout :: int
  retry_attempts :: int
  respect_robots_txt :: bool
  user_agents :: "string list"

text \<open>
  What one attempt of \<^verbatim>\<open>fetch_url\<close> meets inside its \<^verbatim>\<open>try\<close> block: a response with a
  status and a body, or an exception (raised while choosing headers, sending the request or
  reading the body), which the handler of the attempt catches.
\<close>

datatype reply = Response int string | Failure exn

text \<open>
  The observable run of one \<^verbatim>\<open>fetch_url\<close> call: the value returned
  (\<^verbatim>\<open>Optional[str]\<close>) or the exception that leaves the call, the number of requests
  made and the durations passed to \<^verbatim>\<open>asyncio.sleep\<close>, in order.
\<close>

record fetch_run =
  fetched :: "exn + string option"
  attempts :: nat
  sleeps :: "real list"

text \<open>
  The backoff \<^verbatim>\<open>(2 ** attempt) + random.random()\<close>, where \<open>random attempt\<close> is the
  value \<^verbatim>\<open>random.random()\<close> returns in that attempt. The sum converts the integer
  power to a float, which raises \<^verbatim>\<open>OverflowError\<close> from \<^verbatim>\<open>2 ** 1024\<close> on; below
  that the duration is taken as a real number.
\<close>

definition backoff :: "nat \<Rightarrow> (nat \<Rightarrow> real) \<Rightarrow> exn + real" where
  "backoff attempt random =
     (if attempt < 1024 then Inr (2 ^ attempt + random attempt) else Inl OverflowError)"

text \<open>
  The handler \<^verbatim>\<open>except Exception\<close> of one attempt: it returns \<^verbatim>\<open>None\<close> on the last
  attempt and sleeps for the backoff otherwise; an exception of the backoff is raised
  inside the handler and leaves \<^verbatim>\<open>fetch_url\<close>.
\<close>

datatype handled = GiveUp | Escapes exn | Retry real

definition handle_failure :: "int \<Rightarrow> nat \<Rightarrow> (nat \<Rightarrow> real) \<Rightarrow> handled" where
  "handle_failure n attempt random =
     (if int attempt = n - 1 then GiveUp
      else case backoff attempt random of
             Inl e \<Rightarrow> Escapes e
           | Inr wait_time \<Rightarrow> Retry wait_time)"

text \<open>
  The loop \<^verbatim>\<open>for attempt in range(retry_attempts)\<close>. \<open>request attempt\<close> is what the
  attempt meets. The backoff after a status 429 is computed inside the \<^verbatim>\<open>try\<close> block,
  so its exception is caught by the handler of the attempt.
\<close>

fun fetch_attempts ::
  "int \<Rightarrow> (nat \<Rightarrow> reply) \<Rightarrow> (nat \<Rightarrow> real) \<Rightarrow> nat list \<Rightarrow> nat \<Rightarrow> real list \<Rightarrow> fetch_run" where
  "fetch_attempts n request random [] made slept =
     \<lparr> fetched = Inr None, attempts = made, sleeps = slept \<rparr>"
| "fetch_attempts n request random (attempt # rest) made slept =
     (let caught =
        (case handle_failure n attempt random of
           GiveUp \<Rightarrow> \<lparr> fetched = Inr None, attempts = Suc made, sleeps = slept \<rparr>
         | Escapes e \<Rightarrow> \<lparr> fetched = Inl e, attempts = Suc made, sleeps = slept \<rparr>
         | Retry wait_time \<Rightarrow>
             fetch_attempts n request random rest (Suc made) (slept @ [wait_time]))
      in case request attempt of
           Response status text \<Rightarrow>
             if status = 200
             then \<lparr> fetched = Inr (Some text), attempts = Suc made, sleeps = slept \<rparr>
             else if status = 429 then
               (case backoff attempt random of
                  Inr wait_time \<Rightarrow>
                    fetch_attempts n request random rest (Suc made) (slept @ [wait_time])
                | Inl e \<Rightarrow> caught)
             else fetch_attempts n request random rest (Suc made) slept
         | Failure e \<Rightarrow> caught)"

definition fetch_url ::
  "ScrapingConfig \<Rightarrow> (string \<Rightarrow> string \<Rightarrow> nat \<Rightarrow> reply) \<Rightarrow> (nat \<Rightarrow> real) \<Rightarrow>
     string \<Rightarrow> string \<Rightarrow> fetch_run" where
  "fetch_url config transport random url method =
     fetch_attempts (retry_attempts config) (transport method url) random
       [0..<nat (retry_attempts config)] 0 []"

text \<open>A response with status 200, and the body of a response.\<close>

fun is_ok :: "reply \<Rightarrow> bool" where
  "is_ok (Response status text) = (status = 200)"
| "is_ok (Failure e) = False"

fun reply_text :: "reply \<Rightarrow> string" where
  "reply_text (Response status text) = text"
| "reply_text (Failure e) = []"

text \<open>An attempt after which the loop computes a backoff: a status 429 or an exception.\<close>

fun needs_backoff :: "reply \<Rightarrow> bool" where
  "needs_backoff (Response status text) = (status = 429)"
| "needs_backoff (Failure e) = True"

text \<open>A mock transport that is rate limited twice and then answers.\<close>

definition mock_config :: ScrapingConfig where
  "mock_config = \<lparr> max_concurrent = 5, request_delay = 1, timeout = 30, retry_attempts = 3,
     respect_robots_txt = True, user_agents = [''agent''] \<rparr>"

definition mock_transport :: "string \<Rightarrow> string \<Rightarrow> nat \<Rightarrow> reply" where
  "mock_transport method url i =
     (if i < 2 then Response 429 ''slow down'' else Response 200 ''body'')"

text \<open>
  A configuration with 1026 attempts, and a transport that answers 503 to the requests
  0 to 1023 and times out afterwards.
\<close>

definition patient_config :: ScrapingConfig where
  "patient_config = \<lparr> max_concurrent = 5, request_delay = 1, timeout = 30,
     retry_attempts = 1026, respect_robots_txt = True, user_agents = [''agent''] \<rparr>"

definition failing_transport :: "string \<Rightarrow> string \<Rightarrow> nat \<Rightarrow> reply" where
  "failing_transport method url i =
     (if i < 1024 then Response 503 ''unavailable'' else Failure (Error ''timed out''))"

section \<open>Normalization (base\_scraper.py)\<close>

text \<open>
  Strings are lists of 8-bit characters, read as the code points U+0000 to U+00FF.
  \<open>is_space\<close> is \<^verbatim>\<open>str.isspace\<close> on these code points, and \<open>py_strip\<close> is
  \<^verbatim>\<open>str.strip()\<close>.
\<close>

definition is_space :: "char \<Rightarrow> bool" where
  "is_space c = ((of_char c :: nat) \<in> {9, 10, 11, 12, 13, 28, 29, 30, 31, 32, 133, 160})"

definition py_strip :: "string \<Rightarrow> string" where
  "py_strip s = rev (dropWhile is_space (rev (dropWhile is_space s)))"

text \<open>
  \<^verbatim>\<open>json.dumps\<close> with its default arguments (\<^verbatim>\<open>ensure_ascii=True\<close>, separators
  \<^verbatim>\<open>', '\<close> and \<^verbatim>\<open>': '\<close>) on the values of the model.
\<close>

definition hex_digit :: "nat \<Rightarrow> char" where
  "hex_digit d =
     (if d = 0 then CHR ''0'' else if d = 1 then CHR ''1'' else if d = 2 then CHR ''2''
      else if d = 3 then CHR ''3'' else if d = 4 then CHR ''4'' else if d = 5 then CHR ''5''
      else if d = 6 then CHR ''6'' else if d = 7 then CHR ''7'' else if d = 8 then CHR ''8''
      else if d = 9 then CHR ''9'' else if d = 10 then CHR ''a'' else if d = 11 then CHR ''b''
      else if d = 12 then CHR ''c'' else if d = 13 then CHR ''d'' else if d = 14 then CHR ''e''
      else CHR ''f'')"

definition escape_char :: "char \<Rightarrow> string" where
  "escape_char c =
     (if c = CHR 0x22 then [CHR 0x5C, CHR 0x22]
      else if c = CHR 0x5C then [CHR 0x5C, CHR 0x5C]
      else if c = CHR 0x08 then [CHR 0x5C, CHR ''b'']
      else if c = CHR 0x0C then [CHR 0x5C, CHR ''f'']
      else if c = CHR 0x0A then [CHR 0x5C, CHR ''n'']
      else if c = CHR 0x0D then [CHR 0x5C, CHR ''r'']
      else if c = CHR 0x09 then [CHR 0x5C, CHR ''t'']
      else if 32 \<le> (of_char c :: nat) \<and> (of_char c :: nat) \<le> 126 then [c]
      else [CHR 0x5C, CHR ''u'', CHR ''0'', CHR ''0'',
            hex_digit ((of_char c :: nat) div 16), hex_digit ((of_char c :: nat) mod 16)])"

definition encode_str :: "string \<Rightarrow> string" where
  "encode_str s = [CHR 0x22] @ concat (map escape_char s) @ [CHR 0x22]"

fun digits :: "nat \<Rightarrow> string" where
  "digits n = (if n < 10 then [hex_digit n] else digits (n div 10) @ [hex_digit (n mod 10)])"

definition str_int :: "int \<Rightarrow> string" where
  "str_int i = (if i < 0 then CHR ''-'' # digits (nat (- i)) else digits (nat i))"

fun join :: "string \<Rightarrow> string list \<Rightarrow> string" where
  "join sep [] = []"
| "join sep [x] = x"
| "join sep (x # y # ys) = x @ sep @ join sep (y # ys)"

fun json_dumps :: "pyval \<Rightarrow> string" where
  "json_dumps PNone = ''null''"
| "json_dumps (PBool b) = (if b then ''true'' else ''false'')"
| "json_dumps (PInt i) = str_int i"
| "json_dumps (PStr s) = encode_str s"
| "json_dumps (PList xs) = ''['' @ join '', '' (map json_dumps xs) @ '']''"
| "json_dumps (PDict kvs) =
     ''{'' @ join '', '' (map (\<lambda>(k, v). encode_str k @ '': '' @ json_dumps v) kvs) @ ''}''"


text \<open>
  \<^verbatim>\<open>normalize_data\<close>. The dictionary comprehension keeps the fields whose value is not
  one of \<^verbatim>\<open>None\<close>, \<^verbatim>\<open>''\<close>, \<^verbatim>\<open>[]\<close>; the loop over the kept fields strips the
  strings and serializes lists and dictionaries; each cleaned record is appended to the
  output list.
\<close>

definition is_empty_value :: "pyval \<Rightarrow> bool" where
  "is_empty_value v = (v \<in> set [PNone, PStr [], PList []])"

fun normalize_value :: "pyval \<Rightarrow> pyval" where
  "normalize_value (PStr s) = PStr (py_strip s)"
| "normalize_value (PList xs) = PStr (json_dumps (PList xs))"
| "normalize_value (PDict kvs) = PStr (json_dumps (PDict kvs))"
| "normalize_value v = v"

definition normalize_item :: "item \<Rightarrow> item" where
  "normalize_item item =
     map (\<lambda>(key, value). (key, normalize_value value))
       (filter (\<lambda>(k, v). \<not> is_empty_value v) item)"

definition normalize_data :: "item list \<Rightarrow> item list" where
  "normalize_data data = fold (\<lambda>item normalized. normalized @ [normalize_item item]) data []"


text \<open>A string without surrounding whitespace.\<close>

definition trimmed :: "string \<Rightarrow> bool" where
  "trimmed s = (s = [] \<or> (\<not> is_space (hd s) \<and> \<not> is_space (last s)))"

text \<open>A value that a second pass neither removes nor rewrites.\<close>

definition settled :: "pyval \<Rightarrow> bool" where
  "settled v = (\<not> is_empty_value v \<and> normalize_value v = v)"

text \<open>A value that is not a non-empty string made of whitespace only.\<close>

definition no_blank_text :: "pyval \<Rightarrow> bool" where
  "no_blank_text v = (case v of PStr s \<Rightarrow> s = [] \<or> py_strip s \<noteq> [] | _ \<Rightarrow> True)"

section \<open>Orchestrator (base\_scraper.py)\<close>

text \<open>
  A source, seen from the orchestrator: what each of the four calls that
  \<^verbatim>\<open>_run_single_scraper\<close> makes on it does in this run.
\<close>

record scraper =
  initialize :: "unit outcome"
  scrape :: "item list outcome"
  save_data :: "item list \<Rightarrow> string \<Rightarrow> unit outcome"
  close :: "unit outcome"

text \<open>The value stored per name: \<^verbatim>\<open>{'data': ..., 'error': ...}\<close>.\<close>

record run_result =
  data :: "item list"
  error :: "string option"





text \<open>The names the run iterates over: all registered names when none are given.\<close>

definition requested :: "(string \<times> scraper) list \<Rightarrow> string list option \<Rightarrow> string list" where
  "requested scrapers scraper_names =
     (case scraper_names of None \<Rightarrow> map fst scrapers | Some ns \<Rightarrow> ns)"




section \<open>Ranking (job\_scrapers.py)\<close>


























section \<open>Scheduler (scraping\_manager.py)\<close>

text \<open>
  The state of a \<^verbatim>\<open>ComprehensiveScrapingManager\<close> object: the attributes
  \<^verbatim>\<open>config\<close>, \<^verbatim>\<open>scrapers\<close> (their categories) and \<^verbatim>\<open>scraping_history\<close>, which
  \<^verbatim>\<open>__init__\<close> assigns, and the attribute \<^verbatim>\<open>logger\<close>, which the methods read and
  no statement of the class assigns: it holds the messages logged so far when it is
  defined on the object, and is \<open>None\<close> when it is not.
\<close>

record manager =
  config :: ScrapingConfig
  scrapers :: "string list"
  scraping_history :: "history_entry list"
  logger :: "string list option"

text \<open>
  A call \<^verbatim>\<open>self.logger.info(msg)\<close> or \<^verbatim>\<open>self.logger.error(msg)\<close>: reading an
  attribute that is not defined raises \<^verbatim>\<open>AttributeError\<close>.
\<close>

definition log_message :: "string \<Rightarrow> manager \<Rightarrow> exn + manager" where
  "log_message msg m =
     (case logger m of
        None \<Rightarrow> Inl (AttributeError ''ComprehensiveScrapingManager'' ''logger'')
      | Some msgs \<Rightarrow> Inr (m \<lparr> logger := Some (msgs @ [msg]) \<rparr>))"

text \<open>
  What one run meets outside the manager: the clock, what the scraper of a category does
  with its parameters, and what writing its results does.
\<close>

record world =
  clock :: string
  scrape_category :: "string \<Rightarrow> pyval \<Rightarrow> pyval outcome"
  save_to_database :: "string \<Rightarrow> pyval \<Rightarrow> unit outcome"

definition default_targets :: "(string \<times> pyval) list" where
  "default_targets =
     [(''jobs'', PDict [(''keywords'', PList [PStr ''python'', PStr ''ai'', PStr ''data scientist''])]),
      (''financial'', PDict [(''data_types'', PList [PStr ''crypto'', PStr ''forex''])]),
      (''odds'', PDict [(''sports'', PList [PStr ''soccer'', PStr ''rugby''])]),
      (''teams'', PDict [(''sports'', PList [PStr ''soccer'', PStr ''rugby''])])]"

text \<open>
  The loop of \<^verbatim>\<open>run_comprehensive_scrape\<close> over the targets. The first logging call is
  outside the \<^verbatim>\<open>try\<close> block; the handler logs and stores the error text.
\<close>

fun scrape_targets ::
  "world \<Rightarrow> (string \<times> pyval) list \<Rightarrow> (string \<times> pyval) list \<Rightarrow> manager \<Rightarrow>
     (exn + (string \<times> pyval) list) \<times> manager" where
  "scrape_targets w [] results m = (Inr results, m)"
| "scrape_targets w ((category, params) # targets) results m =
     (if category \<in> set (scrapers m) then
        (case log_message (''Starting '' @ category @ '' scraping...'') m of
           Inl e \<Rightarrow> (Inl e, m)
         | Inr m1 \<Rightarrow>
             (let attempt =
                (case scrape_category w category params of
                   Raises e \<Rightarrow> (results, Some e)
                 | Returns scraper_results \<Rightarrow>
                     (case save_to_database w category scraper_results of
                        Raises e \<Rightarrow> (AList.update category scraper_results results, Some e)
                      | Returns _ \<Rightarrow> (AList.update category scraper_results results, None)))
              in case attempt of
                   (results1, None) \<Rightarrow> scrape_targets w targets results1 m1
                 | (results1, Some e) \<Rightarrow>
                     (case log_message (''Scraping '' @ category @ '' failed: '' @ str_exn e) m1 of
                        Inl e2 \<Rightarrow> (Inl e2, m1)
                      | Inr m2 \<Rightarrow>
                          scrape_targets w targets
                            (AList.update category (PDict [(''error'', PStr (str_exn e))]) results1)
                            m2)))
      else scrape_targets w targets results m)"

definition run_comprehensive_scrape ::
  "world \<Rightarrow> (string \<times> pyval) list option \<Rightarrow> manager \<Rightarrow>
     (exn + (string \<times> pyval) list) \<times> manager" where
  "run_comprehensive_scrape w targets m =
     (case scrape_targets w (case targets of None \<Rightarrow> default_targets | Some ts \<Rightarrow> ts) [] m of
        (Inl e, m1) \<Rightarrow> (Inl e, m1)
      | (Inr results, m1) \<Rightarrow>
          (Inr results,
           m1 \<lparr> scraping_history :=
                  update_scraping_history (clock w) (scraping_history m1) results \<rparr>))"

text \<open>
  The \<^verbatim>\<open>try\<close> block of one iteration of \<^verbatim>\<open>schedule_scraping\<close>: the run, the message
  and the sleep of \<^verbatim>\<open>interval_minutes * 60\<close> seconds. The result is the exception, if
  one is raised, and the sleeps made.
\<close>

definition scheduled_run :: "world \<Rightarrow> int \<Rightarrow> manager \<Rightarrow> (exn option \<times> int list) \<times> manager" where
  "scheduled_run w interval_minutes m =
     (case run_comprehensive_scrape w None m of
        (Inl e, m1) \<Rightarrow> ((Some e, []), m1)
      | (Inr results, m1) \<Rightarrow>
          (case log_message (''Scraping completed. Next in '' @ str_int interval_minutes @
                             '' minutes.'') m1 of
             Inl e \<Rightarrow> ((Some e, []), m1)
           | Inr m2 \<Rightarrow> ((None, [interval_minutes * 60]), m2)))"

text \<open>
  \<^verbatim>\<open>schedule_scraping\<close>, for at most \<open>fuel\<close> iterations of \<^verbatim>\<open>while True\<close>, the
  \<open>i\<close>-th one in the world \<open>worlds i\<close>. The result is the exception that ended the loop
  (\<open>None\<close> while the loop is still running), the sleeps made so far and the manager.
\<close>

fun schedule_scraping ::
  "nat \<Rightarrow> (nat \<Rightarrow> world) \<Rightarrow> int \<Rightarrow> nat \<Rightarrow> manager \<Rightarrow> int list \<Rightarrow>
     exn option \<times> int list \<times> manager" where
  "schedule_scraping 0 worlds interval_minutes i m slept = (None, slept, m)"
| "schedule_scraping (Suc fuel) worlds interval_minutes i m slept =
     (case scheduled_run (worlds i) interval_minutes m of
        ((None, sleeps1), m1) \<Rightarrow>
          schedule_scraping fuel worlds interval_minutes (Suc i) m1 (slept @ sleeps1)
      | ((Some e, sleeps1), m1) \<Rightarrow>
          (case log_message (''Scheduled scraping failed: '' @ str_exn e) m1 of
             Inl e2 \<Rightarrow> (Some e2, slept @ sleeps1, m1)
           | Inr m2 \<Rightarrow>
               schedule_scraping fuel worlds interval_minutes (Suc i) m2
                 (slept @ sleeps1 @ [300])))"



section \<open>Properties of the run history\<close>

lemma update_all_snoc:
  "update_all (runs @ [(now, results)]) h = update_scraping_history now (update_all runs h) results"
  by (simp add: update_all_def)

lemma update_all_empty_history:
  "update_all runs [] =
     drop (length runs - 100) (map (\<lambda>(now, results). make_history_entry now results) runs)"
proof (induction runs rule: rev_induct)
  case Nil
  show ?case by (simp add: update_all_def)
next
  case (snoc r runs)
  obtain now results where r: "r = (now, results)" by (cases r)
  let ?es = "map (\<lambda>(now, results). make_history_entry now results) runs"
  show ?case
  proof (cases "length runs < 100")
    case True
    then show ?thesis
      unfolding r update_all_snoc snoc.IH
      by (simp add: update_scraping_history_def Let_def)
  next
    case False
    then have "Suc (length runs - 100) = length runs - 99" by arith
    with False show ?thesis
      unfolding r update_all_snoc snoc.IH
      by (simp add: update_scraping_history_def Let_def)
  qed
qed

text \<open>
  C4. The history never holds more than 100 entries after an append, and 150 appends
  to an empty history leave exactly the summaries 51 to 150, in insertion order.
\<close>

theorem history_bounded_fifo:
  "length (update_scraping_history now h results) \<le> 100 \<and>
   (length runs = 150 \<longrightarrow>
      length (update_all runs []) = 100 \<and>
      update_all runs [] =
        map (\<lambda>(now, results). make_history_entry now results) (drop 50 runs))"
  by (simp add: update_all_empty_history update_scraping_history_def Let_def drop_map)

theorem history_bounded_fifo_witness:
  "length (map (\<lambda>n. (''t'', [(''web'', PList (replicate n PNone))])) [1..<151]) = 150 \<and>
   map total_items
     (update_all (map (\<lambda>n. (''t'', [(''web'', PList (replicate n PNone))])) [1..<151]) []) =
   [51..<151]"
proof -
  let ?runs = "map (\<lambda>n. (''t'', [(''web'', PList (replicate n PNone))])) [1..<151]"
  have len: "length ?runs = 150" by simp
  have "update_all ?runs [] =
        map (\<lambda>(now, results). make_history_entry now results) (drop 50 ?runs)"
    using history_bounded_fifo [of _ _ _ ?runs] len by blast
  then show ?thesis
    by (simp add: drop_map make_history_entry_def o_def map_idI)
qed

lemma last_update_scraping_history:
  "last (update_scraping_history now h results) = make_history_entry now results"
  by (simp add: update_scraping_history_def Let_def)

text \<open>
  C8, as stated, fails: the result of the \<^verbatim>\<open>jobs\<close> category is the mapping
  returned by the orchestrator, not a list, so its summary value is the string
  \<^verbatim>\<open>'multiple'\<close> and its one record is not counted in \<^verbatim>\<open>total_items\<close>.
\<close>

theorem summary_not_a_count_counterexample:
  "results_summary (last (update_scraping_history ''t'' []
      [(''jobs'', PDict [(''linkedin'',
          PDict [(''data'', PList [PDict [(''title'', PStr ''dev'')]]), (''error'', PNone)])])]))
    = [(''jobs'', Multiple)] \<and>
   total_items (last (update_scraping_history ''t'' []
      [(''jobs'', PDict [(''linkedin'',
          PDict [(''data'', PList [PDict [(''title'', PStr ''dev'')]]), (''error'', PNone)])])]))
    = 0"
  by (simp add: update_scraping_history_def make_history_entry_def)

text \<open>
  C8, amended. The summary appended by a run has the categories of the results, in
  their order; a category whose result is a list is mapped to the length of that list
  and any other result to the marker \<^verbatim>\<open>'multiple'\<close>; \<^verbatim>\<open>total_items\<close> is the sum of the
  lengths of the list results, which is the sum of the integer counts of the summary.
\<close>

theorem summary_counts_lists_only:
  "map fst (results_summary (last (update_scraping_history now h results))) = map fst results \<and>
   map_of (results_summary (last (update_scraping_history now h results))) category =
     (case map_of results category of
        None \<Rightarrow> None
      | Some (PList xs) \<Rightarrow> Some (Count (length xs))
      | Some _ \<Rightarrow> Some Multiple) \<and>
   total_items (last (update_scraping_history now h results)) =
     sum_list (map (\<lambda>(category, data). case data of PList xs \<Rightarrow> length xs | _ \<Rightarrow> 0) results) \<and>
   total_items (last (update_scraping_history now h results)) =
     sum_list (map (\<lambda>(category, s). count_value s)
        (results_summary (last (update_scraping_history now h results))))"
proof -
  have cv: "count_value (summary_of d) = items_of d" for d
    by (cases d) simp_all
  have s: "items_of d = (case d of PList xs \<Rightarrow> length xs | _ \<Rightarrow> 0)" for d
    by (cases d) simp_all
  have m: "map_of (map (\<lambda>p. (fst p, summary_of (snd p))) results) category =
        (case map_of results category of
           None \<Rightarrow> None
         | Some (PList xs) \<Rightarrow> Some (Count (length xs))
         | Some _ \<Rightarrow> Some Multiple)"
    by (induction results) (auto split: pyval.splits)
  show ?thesis
    unfolding last_update_scraping_history
    by (simp add: make_history_entry_def s [symmetric] m o_def case_prod_unfold cv)
qed

section \<open>Properties of the fetch client\<close>

lemma backoff_small: "attempt < 1024 \<Longrightarrow> backoff attempt random = Inr (2 ^ attempt + random attempt)"
  by (simp add: backoff_def)

lemma fetch_attempts_result:
  assumes "n \<le> 1025"
  shows "fetched (fetch_attempts n request random [k..<nat n] made slept) =
     Inr (map_option reply_text (find is_ok (map request [k..<nat n])))"
proof (induction "nat n - k" arbitrary: k made slept)
  case 0
  then have "nat n \<le> k" by simp
  then have e: "[k..<nat n] = []" by simp
  show ?case unfolding e by simp
next
  case (Suc d)
  then have kn: "k < nat n" by simp
  then have u: "[k..<nat n] = k # [Suc k..<nat n]" by (simp add: upt_conv_Cons)
  have IH: "fetched (fetch_attempts n request random [Suc k..<nat n] made' slept') =
     Inr (map_option reply_text (find is_ok (map request [Suc k..<nat n])))" for made' slept'
    using Suc.hyps(1) [of "Suc k"] Suc.hyps(2) by simp
  have last: "[Suc k..<nat n] = []" if "int k = n - 1"
    using that by simp
  have h: "handle_failure n k random = GiveUp \<or>
           (int k \<noteq> n - 1 \<and> handle_failure n k random = Retry (2 ^ k + random k))"
    using kn assms by (auto simp: handle_failure_def backoff_def)
  have b: "backoff k random = Inr (2 ^ k + random k) \<or>
           (backoff k random = Inl OverflowError \<and> int k = n - 1)"
    using kn assms by (auto simp: backoff_def)
  have g: "handle_failure n k random = GiveUp \<Longrightarrow> int k = n - 1"
    by (auto simp: handle_failure_def split: if_splits sum.splits)
  show ?case
  proof (cases "request k")
    case (Failure e)
    with h show ?thesis
      unfolding u using IH last g by (auto simp: Let_def)
  next
    case (Response status content)
    show ?thesis
    proof (cases "status = 429")
      case False
      with Response show ?thesis unfolding u using IH by (simp add: Let_def)
    next
      case True
      from b show ?thesis
      proof
        assume "backoff k random = Inr (2 ^ k + random k)"
        with Response True show ?thesis unfolding u using IH by (simp add: Let_def)
      next
        assume o: "backoff k random = Inl OverflowError \<and> int k = n - 1"
        then have "handle_failure n k random = GiveUp" by (simp add: handle_failure_def)
        with o Response True show ?thesis unfolding u using last by (simp add: Let_def)
      qed
    qed
  qed
qed

lemma fetch_attempts_bound:
  "attempts (fetch_attempts n request random as made slept) \<le> made + length as"
proof (induction as arbitrary: made slept)
  case Nil
  show ?case by simp
next
  case (Cons a as)
  have IH: "attempts (fetch_attempts n request random as (Suc made) slept') \<le> Suc made + length as"
    for slept'
    by (rule Cons)
  show ?case
    using IH [of slept] IH [of "slept @ [2 ^ a + random a]"]
    by (auto simp: Let_def handle_failure_def backoff_def
        split: reply.splits handled.splits sum.splits if_splits)
qed

text \<open>
  With at most 1025 attempts no backoff overflows outside the last attempt, and
  \<^verbatim>\<open>fetch_url\<close> returns: the body of the first response with status 200 among its
  attempts, and \<^verbatim>\<open>None\<close> when there is none.
\<close>

lemma fetch_url_returns_when_bounded:
  assumes "retry_attempts cfg \<le> 1025"
  shows "fetched (fetch_url cfg transport random url method) =
     Inr (map_option reply_text
       (find is_ok (map (transport method url) [0..<nat (retry_attempts cfg)])))"
    and "attempts (fetch_url cfg transport random url method) \<le> nat (retry_attempts cfg)"
proof -
  show "fetched (fetch_url cfg transport random url method) =
     Inr (map_option reply_text
       (find is_ok (map (transport method url) [0..<nat (retry_attempts cfg)])))"
    by (simp add: fetch_url_def fetch_attempts_result [OF assms, where k = 0])
  show "attempts (fetch_url cfg transport random url method) \<le> nat (retry_attempts cfg)"
    using fetch_attempts_bound [of "retry_attempts cfg" "transport method url" random
        "[0..<nat (retry_attempts cfg)]" 0 "[]"]
    by (simp add: fetch_url_def)
qed

lemma fetch_attempts_skip:
  assumes "k \<le> i" "i \<le> nat n"
    and "\<forall>j. k \<le> j \<and> j < i \<longrightarrow>
           (\<exists>status text. request j = Response status text \<and> status \<noteq> 200 \<and> status \<noteq> 429)"
  shows "fetch_attempts n request random [k..<nat n] made slept =
         fetch_attempts n request random [i..<nat n] (made + (i - k)) slept"
  using assms
proof (induction "i - k" arbitrary: k made)
  case 0
  then show ?case by simp
next
  case (Suc d)
  then have lt: "k < i" by simp
  with Suc.prems have u: "[k..<nat n] = k # [Suc k..<nat n]" by (simp add: upt_conv_Cons)
  from Suc.prems lt obtain status content
    where r: "request k = Response status content" "status \<noteq> 200" "status \<noteq> 429" by blast
  have "fetch_attempts n request random [Suc k..<nat n] (Suc made) slept =
        fetch_attempts n request random [i..<nat n] (Suc made + (i - Suc k)) slept"
    using Suc.hyps(1) [of "Suc k" "Suc made"] Suc.hyps(2) Suc.prems lt by simp
  moreover have "Suc made + (i - Suc k) = made + (i - k)"
    using lt by simp
  ultimately have "fetch_attempts n request random [Suc k..<nat n] (Suc made) slept =
        fetch_attempts n request random [i..<nat n] (made + (i - k)) slept"
    by (simp only:)
  then show ?case
    unfolding u by (simp add: r Let_def)
qed

text \<open>
  C9. \<^verbatim>\<open>fetch_url\<close> does not return for every configuration and transport: with 1026
  attempts, a transport that answers 503 to the requests 0 to 1023 brings the loop to
  attempt 1024 without a sleep, the request of that attempt times out, and the handler,
  which is not in its last attempt, raises \<^verbatim>\<open>OverflowError\<close> at its own backoff; the
  exception leaves the call after 1025 requests.
\<close>

theorem fetch_url_overflow_escapes:
  "fetch_url patient_config failing_transport random url method =
     \<lparr> fetched = Inl OverflowError, attempts = 1025, sleeps = [] \<rparr>"
proof -
  let ?request = "failing_transport method url"
  have skip: "fetch_attempts 1026 ?request random [0..<nat 1026] 0 [] =
        fetch_attempts 1026 ?request random [1024..<nat 1026] (0 + (1024 - 0)) []"
    by (rule fetch_attempts_skip) (simp_all add: failing_transport_def)
  have u: "[1024..<nat 1026] = 1024 # [1025..<nat 1026]"
    by (simp add: upt_conv_Cons)
  have h: "handle_failure 1026 1024 random = Escapes OverflowError"
    by (simp add: handle_failure_def backoff_def)
  have r: "?request 1024 = Failure (Error ''timed out'')"
    by (simp add: failing_transport_def)
  have "fetch_attempts 1026 ?request random [1024..<nat 1026] (0 + (1024 - 0)) [] =
        \<lparr> fetched = Inl OverflowError, attempts = 1025, sleeps = [] \<rparr>"
    unfolding u by (simp add: h r Let_def)
  with skip show ?thesis
    by (simp add: fetch_url_def patient_config_def)
qed

lemma fetch_attempts_first_ok:
  assumes "k \<le> i" "int i < n" "request i = Response 200 text"
    and "\<forall>j. k \<le> j \<and> j < i \<longrightarrow>
           \<not> is_ok (request j) \<and> (needs_backoff (request j) \<longrightarrow> j < 1024)"
  shows "fetched (fetch_attempts n request random [k..<nat n] made slept) = Inr (Some text) \<and>
         attempts (fetch_attempts n request random [k..<nat n] made slept) = made + (i - k) + 1"
  using assms
proof (induction "i - k" arbitrary: k made slept)
  case 0
  then have "k = i" by simp
  with 0 have "[k..<nat n] = i # [Suc i..<nat n]" by (simp add: upt_conv_Cons)
  with 0 \<open>k = i\<close> show ?case by (simp add: Let_def)
next
  case (Suc d)
  then have lt: "k < i" by simp
  with Suc have u: "[k..<nat n] = k # [Suc k..<nat n]" by (simp add: upt_conv_Cons)
  have nk: "\<not> is_ok (request k)" using Suc.prems lt by simp
  have notlast: "int k \<noteq> n - 1" using lt Suc.prems by linarith
  have small: "k < 1024" if "needs_backoff (request k)"
    using that lt Suc.prems by simp
  have h: "handle_failure n k random = Retry (2 ^ k + random k)" if "needs_backoff (request k)"
    using notlast small [OF that] by (simp add: handle_failure_def backoff_def)
  have IH: "fetched (fetch_attempts n request random [Suc k..<nat n] made' slept') = Inr (Some text) \<and>
         attempts (fetch_attempts n request random [Suc k..<nat n] made' slept') = made' + (i - Suc k) + 1"
    for made' slept'
    using Suc.hyps(1) [of "Suc k"] Suc.hyps(2) Suc.prems lt by simp
  show ?case
  proof (cases "request k")
    case (Failure e)
    then have "needs_backoff (request k)" by simp
    from h [OF this] Failure show ?thesis
      unfolding u using lt IH by (simp add: Let_def)
  next
    case (Response status content)
    show ?thesis
    proof (cases "status = 429")
      case True
      with Response have "needs_backoff (request k)" by simp
      from backoff_small [OF small [OF this]] Response True show ?thesis
        unfolding u using lt IH by (simp add: Let_def)
    next
      case False
      with Response nk show ?thesis
        unfolding u using lt IH by (simp add: Let_def)
    qed
  qed
qed

text \<open>
  C3. With \<^verbatim>\<open>retry_attempts = 3\<close> and responses 429, 429, 200 the call makes exactly
  three requests and returns the third body, after sleeping \<open>2 ^ 0 + random\<close> and
  \<open>2 ^ 1 + random\<close> seconds; in general the first response with status 200 ends the call
  with its body, no further request being made, whenever the attempts before it that
  compute a backoff are among the attempts 0 to 1023, whose backoff does not overflow.
\<close>

theorem fetch_retries_rate_limited:
  "(retry_attempts cfg = 3 \<and>
    transport method url 0 = Response 429 b0 \<and>
    transport method url 1 = Response 429 b1 \<and>
    transport method url 2 = Response 200 b \<longrightarrow>
      fetch_url cfg transport random url method =
        \<lparr> fetched = Inr (Some b), attempts = 3,
          sleeps = [2 ^ 0 + random 0, 2 ^ 1 + random 1] \<rparr>) \<and>
   (int i < retry_attempts cfg \<and>
    transport method url i = Response 200 b \<and>
    (\<forall>j < i. \<not> is_ok (transport method url j) \<and>
       (needs_backoff (transport method url j) \<longrightarrow> j < 1024)) \<longrightarrow>
      fetched (fetch_url cfg transport random url method) = Inr (Some b) \<and>
      attempts (fetch_url cfg transport random url method) = i + 1)"
proof (intro conjI impI)
  assume a: "retry_attempts cfg = 3 \<and>
    transport method url 0 = Response 429 b0 \<and>
    transport method url 1 = Response 429 b1 \<and>
    transport method url 2 = Response 200 b"
  have "[0..<nat 3] = [0, 1, 2]" by (simp add: upt_rec)
  with a show "fetch_url cfg transport random url method =
        \<lparr> fetched = Inr (Some b), attempts = 3,
          sleeps = [2 ^ 0 + random 0, 2 ^ 1 + random 1] \<rparr>"
    by (simp add: fetch_url_def Let_def backoff_def)
next
  assume a: "int i < retry_attempts cfg \<and>
    transport method url i = Response 200 b \<and>
    (\<forall>j < i. \<not> is_ok (transport method url j) \<and>
       (needs_backoff (transport method url j) \<longrightarrow> j < 1024))"
  then show "fetched (fetch_url cfg transport random url method) = Inr (Some b)"
    using fetch_attempts_first_ok [of 0 i "retry_attempts cfg" "transport method url" b random 0 "[]"]
    by (simp add: fetch_url_def)
  from a show "attempts (fetch_url cfg transport random url method) = i + 1"
    using fetch_attempts_first_ok [of 0 i "retry_attempts cfg" "transport method url" b random 0 "[]"]
    by (simp add: fetch_url_def)
qed

theorem fetch_retries_rate_limited_witness:
  "fetch_url mock_config mock_transport (\<lambda>attempt. 1 / 2) ''http://x'' ''GET'' =
     \<lparr> fetched = Inr (Some ''body''), attempts = 3, sleeps = [3 / 2, 5 / 2] \<rparr> \<and>
   fetched (fetch_url (mock_config \<lparr> retry_attempts := 5 \<rparr>) mock_transport (\<lambda>attempt. 1 / 2)
      ''http://x'' ''GET'') = Inr (Some ''body'') \<and>
   attempts (fetch_url (mock_config \<lparr> retry_attempts := 5 \<rparr>) mock_transport (\<lambda>attempt. 1 / 2)
      ''http://x'' ''GET'') = 3"
  using fetch_retries_rate_limited [of mock_config mock_transport "''GET''" "''http://x''"
      "''slow down''" "''slow down''" "''body''" "\<lambda>attempt. 1 / 2" 2]
    fetch_retries_rate_limited [of "mock_config \<lparr> retry_attempts := 5 \<rparr>" mock_transport "''GET''" "''http://x''"
      "''slow down''" "''slow down''" "''body''" "\<lambda>attempt. 1 / 2" 2]
  by (simp add: mock_config_def mock_transport_def less_Suc_eq numeral_2_eq_2)

section \<open>Properties of normalization\<close>

lemma trimmed_py_strip: "trimmed (py_strip s)"
proof -
  let ?t = "dropWhile is_space s"
  let ?u = "rev (dropWhile is_space (rev ?t))"
  have split: "?t = ?u @ rev (takeWhile is_space (rev ?t))"
    by (metis rev_append rev_rev_ident takeWhile_dropWhile_id)
  show ?thesis
  proof (cases "?u = []")
    case True
    then show ?thesis by (simp add: trimmed_def py_strip_def)
  next
    case False
    then have ne: "dropWhile is_space (rev ?t) \<noteq> []" by simp
    have l: "\<not> is_space (last ?u)"
      using hd_dropWhile [OF ne] ne by (simp add: last_rev)
    have "?t \<noteq> []"
    proof
      assume e: "?t = []"
      have "?u = []" unfolding e by simp
      with False show False by blast
    qed
    then have "\<not> is_space (hd ?t)" by (rule hd_dropWhile)
    moreover have "hd ?t = hd ?u" using False split by (metis hd_append2)
    ultimately show ?thesis using l by (simp add: trimmed_def py_strip_def)
  qed
qed

lemma py_strip_trimmed: "trimmed s \<Longrightarrow> py_strip s = s"
proof (cases "s = []")
  case True
  then show ?thesis by (simp add: py_strip_def)
next
  case False
  assume "trimmed s"
  with False have h: "\<not> is_space (hd s)" and l: "\<not> is_space (last s)"
    by (simp_all add: trimmed_def)
  from False h have d: "dropWhile is_space s = s" by (cases s) simp_all
  from False l have "dropWhile is_space (rev s) = rev s"
    by (cases "rev s") (simp_all add: last_rev [symmetric] hd_rev)
  with d show ?thesis by (simp add: py_strip_def)
qed

lemma py_strip_idem: "py_strip (py_strip s) = py_strip s"
  by (rule py_strip_trimmed) (rule trimmed_py_strip)

lemma trimmed_brackets:
  "\<not> is_space a \<Longrightarrow> \<not> is_space b \<Longrightarrow> trimmed (a # body @ [b])"
  by (simp add: trimmed_def)

lemma not_space_brackets:
  "\<not> is_space CHR ''[''" "\<not> is_space CHR '']''" "\<not> is_space CHR ''{''" "\<not> is_space CHR ''}''"
  by (simp_all add: is_space_def)

lemma json_dumps_container:
  "trimmed (json_dumps (PList xs)) \<and> json_dumps (PList xs) \<noteq> [] \<and>
   trimmed (json_dumps (PDict kvs)) \<and> json_dumps (PDict kvs) \<noteq> []"
  using trimmed_brackets [OF not_space_brackets(1) not_space_brackets(2)]
    trimmed_brackets [OF not_space_brackets(3) not_space_brackets(4)]
  by simp

lemma settled_normalize_value:
  assumes "\<not> is_empty_value v" "no_blank_text v"
  shows "settled (normalize_value v)"
proof (cases v)
  case (PStr s)
  with assms have "py_strip s \<noteq> []" by (simp add: no_blank_text_def is_empty_value_def)
  with PStr show ?thesis by (simp add: settled_def is_empty_value_def py_strip_idem)
next
  case (PList xs)
  then show ?thesis
    using json_dumps_container [of xs "[]"]
    by (simp add: settled_def is_empty_value_def py_strip_trimmed del: json_dumps.simps)
next
  case (PDict kvs)
  then show ?thesis
    using json_dumps_container [of "[]" kvs]
    by (simp add: settled_def is_empty_value_def py_strip_trimmed del: json_dumps.simps)
qed (use assms in \<open>simp_all add: settled_def is_empty_value_def\<close>)

lemma normalize_item_settled:
  assumes "\<forall>(k, v) \<in> set item. settled v"
  shows "normalize_item item = item"
proof -
  have f: "filter (\<lambda>(k, v). \<not> is_empty_value v) item = item"
    using assms by (intro filter_True) (auto simp: settled_def)
  have "map (\<lambda>(key, value). (key, normalize_value value)) item = item"
    using assms by (intro map_idI) (auto simp: settled_def)
  with f show ?thesis by (simp add: normalize_item_def)
qed

lemma normalize_item_idem:
  assumes "\<forall>(k, v) \<in> set item. no_blank_text v"
  shows "normalize_item (normalize_item item) = normalize_item item"
proof (rule normalize_item_settled)
  show "\<forall>(k, v) \<in> set (normalize_item item). settled v"
    using assms by (auto simp: normalize_item_def intro: settled_normalize_value)
qed

lemma normalize_data_map: "normalize_data records = map normalize_item records"
proof -
  have "fold (\<lambda>item normalized. normalized @ [normalize_item item]) records acc =
        acc @ map normalize_item records" for acc
    by (induction records arbitrary: acc) simp_all
  then show ?thesis by (simp add: normalize_data_def)
qed

text \<open>
  C5, amended. On records none of whose string values is non-empty and made of whitespace
  only, normalization is idempotent.
\<close>

theorem normalize_idempotent_without_blank_text:
  assumes "\<forall>item \<in> set records. \<forall>(k, v) \<in> set item. no_blank_text v"
  shows "normalize_data (normalize_data records) = normalize_data records"
  using assms by (simp add: normalize_data_map normalize_item_idem)

theorem normalize_idempotent_without_blank_text_witness:
  "normalize_data (normalize_data
     [[(''title'', PStr '' Dev ''), (''salary'', PStr []), (''tags'', PList [PStr ''a'', PInt 2]),
       (''meta'', PDict []), (''views'', PInt 0), (''company'', PNone)]]) =
   normalize_data
     [[(''title'', PStr '' Dev ''), (''salary'', PStr []), (''tags'', PList [PStr ''a'', PInt 2]),
       (''meta'', PDict []), (''views'', PInt 0), (''company'', PNone)]] \<and>
   normalize_data
     [[(''title'', PStr '' Dev ''), (''salary'', PStr []), (''tags'', PList [PStr ''a'', PInt 2]),
       (''meta'', PDict []), (''views'', PInt 0), (''company'', PNone)]] =
   [[(''title'', PStr ''Dev''), (''tags'', PStr ([CHR ''['', CHR 0x22, CHR ''a'', CHR 0x22] @ '', 2]'')),
     (''meta'', PStr ''{}''), (''views'', PInt 0)]]"
proof -
  have sp: "is_space CHR '' ''" "\<not> is_space CHR ''D''" "\<not> is_space CHR ''v''"
    by (simp_all add: is_space_def)
  have st: "py_strip '' Dev '' = ''Dev''"
    by (simp add: py_strip_def sp)
  have h: "\<forall>item \<in> set [[(''title'', PStr '' Dev ''), (''salary'', PStr []), (''tags'', PList [PStr ''a'', PInt 2]),
       (''meta'', PDict []), (''views'', PInt 0), (''company'', PNone)]]. \<forall>(k, v) \<in> set item. no_blank_text v"
    by (simp add: no_blank_text_def st)
  have e: "normalize_data
     [[(''title'', PStr '' Dev ''), (''salary'', PStr []), (''tags'', PList [PStr ''a'', PInt 2]),
       (''meta'', PDict []), (''views'', PInt 0), (''company'', PNone)]] =
   [[(''title'', PStr ''Dev''), (''tags'', PStr ([CHR ''['', CHR 0x22, CHR ''a'', CHR 0x22] @ '', 2]'')),
     (''meta'', PStr ''{}''), (''views'', PInt 0)]]"
    by (simp add: normalize_data_def normalize_item_def is_empty_value_def st encode_str_def
        escape_char_def str_int_def hex_digit_def)
  show ?thesis
    using normalize_idempotent_without_blank_text [OF h] e by simp
qed

text \<open>
  C5, as stated, fails: a string of two spaces is kept by the filter (it is not \<^verbatim>\<open>''\<close>)
  and stripped to the empty string, which a second normalization removes.
\<close>

theorem normalize_not_idempotent_counterexample:
  "normalize_data (normalize_data [[(''title'', PStr ''  '')]]) \<noteq>
   normalize_data [[(''title'', PStr ''  '')]]"
proof -
  have sp: "is_space CHR '' ''" by (simp add: is_space_def)
  have "py_strip ''  '' = []" by (simp add: py_strip_def sp)
  then show ?thesis
    by (simp add: normalize_data_def normalize_item_def is_empty_value_def)
qed

text \<open>
  C10. Normalization returns one record per input record, in the input order, and a
  record all of whose values are empty is emitted as the empty record, not dropped.
\<close>

theorem normalize_keeps_count_and_order:
  "normalize_data records = map normalize_item records \<and>
   length (normalize_data records) = length records \<and>
   (\<forall>i < length records. normalize_data records ! i = normalize_item (records ! i)) \<and>
   ((\<forall>(k, v) \<in> set item. is_empty_value v) \<longrightarrow>
      normalize_item item = [] \<and>
      normalize_data (before @ [item] @ after) ! length before = [] \<and>
      length (normalize_data (before @ [item] @ after)) = length before + 1 + length after)"
proof -
  have "normalize_item item = []" if "\<forall>(k, v) \<in> set item. is_empty_value v"
    using that by (auto simp: normalize_item_def filter_empty_conv)
  then show ?thesis
    by (simp add: normalize_data_map nth_append)
qed

theorem normalize_keeps_count_and_order_witness:
  "is_empty_value PNone \<and> is_empty_value (PStr []) \<and> is_empty_value (PList []) \<and>
   normalize_data [[(''x'', PInt 1)], [(''a'', PNone), (''b'', PStr []), (''c'', PList [])], [(''y'', PInt 2)]] =
     [[(''x'', PInt 1)], [], [(''y'', PInt 2)]]"
proof -
  have h: "\<forall>(k, v) \<in> set [(''a'', PNone), (''b'', PStr []), (''c'', PList [])]. is_empty_value v"
    by (simp add: is_empty_value_def)
  have "normalize_item [(''a'', PNone), (''b'', PStr []), (''c'', PList [])] = []"
    using normalize_keeps_count_and_order [of _ "[(''a'', PNone), (''b'', PStr []), (''c'', PList [])]"] h
    by blast
  moreover have "normalize_item [(''x'', PInt 1)] = [(''x'', PInt 1)]"
    "normalize_item [(''y'', PInt 2)] = [(''y'', PInt 2)]"
    by (simp_all add: normalize_item_def is_empty_value_def)
  ultimately show ?thesis
    using h normalize_keeps_count_and_order [of "[[(''x'', PInt 1)], [(''a'', PNone), (''b'', PStr []), (''c'', PList [])], [(''y'', PInt 2)]]"]
    by simp
qed

section \<open>Properties of the orchestrator\<close>



lemma requested_None_registered:
  "\<forall>n \<in> set (requested registry None). map_of registry n \<noteq> None"
  by (auto simp: requested_def map_of_eq_None_iff)





section \<open>Properties of ranking\<close>















section \<open>Properties of the scheduler\<close>

lemma log_message_logger:
  "logger m = Some msgs \<Longrightarrow> log_message msg m = Inr (m \<lparr> logger := Some (msgs @ [msg]) \<rparr>)"
  by (simp add: log_message_def)

lemma scrape_targets_with_logger:
  "logger m \<noteq> None \<Longrightarrow>
     \<exists>found m1. scrape_targets w targets results m = (Inr found, m1) \<and> logger m1 \<noteq> None"
proof (induction targets arbitrary: results m)
  case Nil
  then show ?case by simp
next
  case (Cons target targets)
  obtain category params where t: "target = (category, params)" by (cases target)
  from Cons.prems obtain msgs where l: "logger m = Some msgs" by auto
  have step: "\<exists>found m1. scrape_targets w targets r m2 = (Inr found, m1) \<and> logger m1 \<noteq> None"
    if "logger m2 \<noteq> None" for r m2
    using Cons.IH that by blast
  show ?case
    unfolding t
    using step l Cons.prems
    by (auto simp: log_message_def Let_def split: outcome.splits option.splits)
qed

lemma scheduled_run_with_logger:
  assumes "logger m \<noteq> None"
  shows "\<exists>m1. scheduled_run w interval_minutes m = ((None, [interval_minutes * 60]), m1) \<and>
              logger m1 \<noteq> None"
proof -
  from scrape_targets_with_logger [OF assms, of w default_targets "[]"]
  obtain found m1 where s: "scrape_targets w default_targets [] m = (Inr found, m1)"
    and l: "logger m1 \<noteq> None" by blast
  from l obtain msgs where "logger m1 = Some msgs" by auto
  with s show ?thesis
    by (simp add: scheduled_run_def run_comprehensive_scrape_def log_message_def)
qed

text \<open>
  With a logger the loop is still running after any number of iterations, and has slept
  \<^verbatim>\<open>interval_minutes * 60\<close> seconds after each run.
\<close>

lemma schedule_scraping_with_logger:
  "logger m \<noteq> None \<Longrightarrow>
     \<exists>m1. schedule_scraping fuel worlds interval_minutes i m slept =
            (None, slept @ replicate fuel (interval_minutes * 60), m1)"
proof (induction fuel arbitrary: i m slept)
  case 0
  show ?case by simp
next
  case (Suc fuel)
  from scheduled_run_with_logger [OF Suc.prems, of "worlds i" interval_minutes]
  obtain m1 where r: "scheduled_run (worlds i) interval_minutes m =
      ((None, [interval_minutes * 60]), m1)" and l: "logger m1 \<noteq> None" by blast
  from Suc.IH [OF l, of "Suc i" "slept @ [interval_minutes * 60]"]
  show ?case
    by (simp add: r replicate_app_Cons_same)
qed





end
